theory Spec2Isabelle
  imports Main "HOL-Library.Sublist" "HOL-Library.AList" "HOL-Library.List_Lexorder"
    "HOL-Library.Char_ord"
begin

section \<open>Text\<close>

text \<open>
  The three scripts read and write whole files as Python \<open>str\<close> values
  (\<open>read_text(encoding='utf-8')\<close>, \<open>write_text(..., encoding='utf-8')\<close>).
  A Python string is a sequence of Unicode code points, so a text is a list of
  natural numbers; the ASCII literals of the source are embedded with \<open>lit\<close>.
  A file whose bytes are valid UTF-8 is identified with the sequence of code
  points that they encode; a file whose bytes are not valid UTF-8 is kept as
  its bytes and cannot be read as text. Both functions open the file in text
  mode with the default \<open>newline=None\<close>: reading turns every \<open>CR LF\<close> and
  every other \<open>CR\<close> into \<open>LF\<close>, writing turns every \<open>LF\<close> into the line
  separator of the platform.
\<close>

type_synonym str = "nat list"

definition lit :: "string \<Rightarrow> str" where
  "lit s = map of_char s"

text \<open>Python's \<open>needle in haystack\<close> on strings.\<close>

fun contains :: "str \<Rightarrow> str \<Rightarrow> bool" where
  "contains s [] = (s = [])"
| "contains s (c # cs) = (prefix s (c # cs) \<or> contains s cs)"

text \<open>Python's slice \<open>t[a:b]\<close> for \<open>0 \<le> a\<close>, \<open>0 \<le> b\<close>.\<close>

definition slice :: "nat \<Rightarrow> nat \<Rightarrow> str \<Rightarrow> str" where
  "slice a b t = take (b - a) (drop a t)"

text \<open>
  The platform, for \<open>os.linesep\<close>, and the two newline translations of a
  text-mode file: \<open>universal_newlines\<close> on reading, \<open>os_newlines\<close> on writing.
\<close>

datatype os = Posix | Windows

definition linesep :: "os \<Rightarrow> str" where
  "linesep os = (case os of Posix \<Rightarrow> [10] | Windows \<Rightarrow> [13, 10])"

fun universal_newlines :: "str \<Rightarrow> str" where
  "universal_newlines [] = []"
| "universal_newlines [c] = [if c = 13 then 10 else c]"
| "universal_newlines (c # d # t) =
     (if c = 13 \<and> d = 10 then 10 # universal_newlines t
      else (if c = 13 then 10 else c) # universal_newlines (d # t))"

definition os_newlines :: "os \<Rightarrow> str \<Rightarrow> str" where
  "os_newlines os t = concat (map (\<lambda>c. if c = 10 then linesep os else [c]) t)"

section \<open>Regular expressions\<close>

text \<open>
  Every pattern of the three scripts is a flat sequence of single-character
  classes, each taken once or under one of the quantifiers \<open>*\<close>, \<open>+\<close>,
  \<open>*?\<close>, with capture groups that are neither nested nor repeated and, in two
  patterns, the anchor \<open>^\<close> under \<open>re.MULTILINE\<close>. \<open>rmatch\<close> is the
  backtracking matcher of Python's \<open>re\<close> on such patterns: a greedy quantifier
  tries the longer repetition first, a lazy one the shorter, and the first
  alternative that lets the rest of the pattern match wins. \<open>Mark\<close> records
  the current position (a group boundary).

  The classes \<open>\s\<close> and \<open>\w\<close> of a \<open>str\<close> pattern are Unicode aware.
  \<open>\s\<close> is \<open>str.isspace\<close>, written out below. \<open>\w\<close> is the underscore
  and every alphanumeric character; beyond ASCII this is a table of the Python
  runtime, not of the repository, and it is the parameter \<open>ua\<close> of everything
  that matches \<open>\w\<close>.
\<close>

datatype quant = Once | Star | Plus | LazyStar

datatype item = Cls "nat \<Rightarrow> bool" quant | Bol | Mark

definition is_space :: "nat \<Rightarrow> bool" where
  "is_space c \<longleftrightarrow>
     (9 \<le> c \<and> c \<le> 13) \<or> (28 \<le> c \<and> c \<le> 32) \<or> c = 133 \<or> c = 160 \<or> c = 5760
     \<or> (8192 \<le> c \<and> c \<le> 8202) \<or> c = 8232 \<or> c = 8233 \<or> c = 8239 \<or> c = 8287
     \<or> c = 12288"

definition is_word :: "(nat \<Rightarrow> bool) \<Rightarrow> nat \<Rightarrow> bool" where
  "is_word ua c \<longleftrightarrow>
     c = 95 \<or> (48 \<le> c \<and> c \<le> 57) \<or> (65 \<le> c \<and> c \<le> 90) \<or> (97 \<le> c \<and> c \<le> 122)
     \<or> (128 \<le> c \<and> ua c)"

text \<open>No alphanumeric character beyond ASCII: the table used on concrete ASCII inputs.\<close>

definition ascii_only :: "nat \<Rightarrow> bool" where
  "ascii_only c = False"

definition chr :: "char \<Rightarrow> item" where
  "chr c = Cls (\<lambda>x. x = of_char c) Once"

definition lits :: "string \<Rightarrow> item list" where
  "lits s = map chr s"

function rmatch :: "item list \<Rightarrow> str \<Rightarrow> nat \<Rightarrow> nat list \<Rightarrow> (nat \<times> nat list) option" where
  "rmatch [] t i ms = Some (i, ms)"
| "rmatch (Mark # r) t i ms = rmatch r t i (ms @ [i])"
| "rmatch (Bol # r) t i ms =
     (if i = 0 \<or> t ! (i - 1) = 10 then rmatch r t i ms else None)"
| "rmatch (Cls p Once # r) t i ms =
     (if i < length t \<and> p (t ! i) then rmatch r t (Suc i) ms else None)"
| "rmatch (Cls p Star # r) t i ms =
     (if i < length t \<and> p (t ! i)
      then (case rmatch (Cls p Star # r) t (Suc i) ms of
              Some x \<Rightarrow> Some x
            | None \<Rightarrow> rmatch r t i ms)
      else rmatch r t i ms)"
| "rmatch (Cls p Plus # r) t i ms =
     (if i < length t \<and> p (t ! i) then rmatch (Cls p Star # r) t (Suc i) ms else None)"
| "rmatch (Cls p LazyStar # r) t i ms =
     (case rmatch r t i ms of
        Some x \<Rightarrow> Some x
      | None \<Rightarrow>
          if i < length t \<and> p (t ! i) then rmatch (Cls p LazyStar # r) t (Suc i) ms
          else None)"
  by pat_completeness auto
termination
  by (relation "measures [\<lambda>(p, t, i, ms). length t - i, \<lambda>(p, t, i, ms). length p]") auto

declare rmatch.simps [simp del]

text \<open>
  A match object: where the match starts, where it ends, and the recorded
  group boundaries.
\<close>

record rematch =
  mstart :: nat
  mend :: nat
  marks :: "nat list"

text \<open>\<open>re.search\<close>: the match at the leftmost start position that has one.\<close>

definition re_search :: "item list \<Rightarrow> str \<Rightarrow> rematch option" where
  "re_search pat t =
     (case List.find (\<lambda>s. rmatch pat t s [] \<noteq> None) [0..<Suc (length t)] of
        None \<Rightarrow> None
      | Some s \<Rightarrow>
          (case rmatch pat t s [] of
             None \<Rightarrow> None
           | Some (e, ms) \<Rightarrow> Some \<lparr>mstart = s, mend = e, marks = ms\<rparr>))"

section \<open>The factory-constructor rule\<close>

text \<open>
  \<open>add_organization_id_to_model\<close> (migrate_to_saas.py, lines 154 to 178) and
  the loop body of \<open>update_settings_models\<close> (migrate_to_saas_phase2.py, lines
  315 to 333) compute the same thing from the text they have read: the guard on
  \<open>organizationId\<close> and \<open>organization_id\<close>, the search for
  \<^verbatim>\<open>(factory\s+\w+\s*\(\s*\{)([^}]*?)(\}\s*\)\s*=\s*_\w+;)\<close>
  and the new content. \<open>patch_factory\<close> is that computation; its three
  results are the three ways the source leaves it.
\<close>

datatype patch_result = Applied str | SkippedAlreadyPresent | SkippedNoMatch

definition factory_pattern :: "(nat \<Rightarrow> bool) \<Rightarrow> item list" where
  "factory_pattern ua =
     lits ''factory'' @
     [Cls is_space Plus, Cls (is_word ua) Plus, Cls is_space Star, chr CHR ''('',
      Cls is_space Star, chr CHR ''{'', Mark,
      Cls (\<lambda>c. c \<noteq> of_char CHR ''}'') LazyStar, Mark,
      chr CHR ''}'', Cls is_space Star, chr CHR '')'', Cls is_space Star, chr CHR ''='',
      Cls is_space Star, chr CHR ''_'', Cls (is_word ua) Plus, chr CHR '';'']"

definition new_field :: str where
  "new_field = lit ''\<newline>    @JsonKey(name: 'organization_id') String? organizationId,''"

definition patch_factory :: "(nat \<Rightarrow> bool) \<Rightarrow> str \<Rightarrow> patch_result" where
  "patch_factory ua content =
     (if contains (lit ''organizationId'') content \<or> contains (lit ''organization_id'') content
      then SkippedAlreadyPresent
      else
        (case re_search (factory_pattern ua) content of
           None \<Rightarrow> SkippedNoMatch
         | Some m \<Rightarrow>
             (let before = slice (mstart m) (marks m ! 0) content;
                  fields = slice (marks m ! 0) (marks m ! 1) content;
                  after = slice (marks m ! 1) (mend m) content;
                  new_fields = new_field @ fields;
                  new_content =
                    take (mstart m) content @ before @ new_fields @ after
                    @ drop (mend m) content
              in Applied new_content)))"

section \<open>The file system\<close>

text \<open>
  A path is the list of its components below \<open>PROJECT_ROOT\<close> (the directory
  of the script), which always exists. The file system is an association list
  from paths to nodes, read with \<open>map_of\<close>. A node is a directory, a file that
  holds text (\<open>File\<close>, the code points that its bytes encode in UTF-8) or a
  file whose bytes are not valid UTF-8 (\<open>Binary\<close>). The operations are those
  the scripts call on \<open>pathlib.Path\<close> and \<open>shutil\<close>; each one that can raise
  returns the exception as a value. Permissions and the other failures of the
  host are not modelled.
\<close>

type_synonym path = "string list"

datatype node = File str | Binary "nat list" | Dir

type_synonym fs = "(path \<times> node) list"

datatype py_error =
  FileNotFoundError | IsADirectoryError | NotADirectoryError | FileExistsError
  | UnicodeDecodeError

definition lookup :: "fs \<Rightarrow> path \<Rightarrow> node option" where
  "lookup fs p = (if p = [] then Some Dir else map_of fs p)"

definition path_exists :: "fs \<Rightarrow> path \<Rightarrow> bool" where
  "path_exists fs p \<longleftrightarrow> lookup fs p \<noteq> None"

text \<open>
  The error of the system for a path that is not there: \<open>ENOTDIR\<close> when one
  of the components above it is a regular file, \<open>ENOENT\<close> otherwise.
\<close>

definition is_regular :: "node option \<Rightarrow> bool" where
  "is_regular n = (case n of Some (File _) \<Rightarrow> True | Some (Binary _) \<Rightarrow> True | _ \<Rightarrow> False)"

definition missing_error :: "fs \<Rightarrow> path \<Rightarrow> py_error" where
  "missing_error fs p =
     (if list_ex (\<lambda>q. is_regular (lookup fs q)) (butlast (prefixes p))
      then NotADirectoryError else FileNotFoundError)"

text \<open>
  A computation that reads and writes the file system and may raise: the file
  system it leaves is part of the result in both cases.
\<close>

type_synonym 'a io = "fs \<Rightarrow> (py_error + 'a) \<times> fs"

definition io_ret :: "'a \<Rightarrow> 'a io" where
  "io_ret v fs = (Inr v, fs)"

definition io_raise :: "py_error \<Rightarrow> 'a io" where
  "io_raise e fs = (Inl e, fs)"

definition io_bind :: "'a io \<Rightarrow> ('a \<Rightarrow> 'b io) \<Rightarrow> 'b io" where
  "io_bind m f fs = (case m fs of (Inl e, fs') \<Rightarrow> (Inl e, fs') | (Inr v, fs') \<Rightarrow> f v fs')"

definition io_exists :: "path \<Rightarrow> bool io" where
  "io_exists p fs = (Inr (path_exists fs p), fs)"

text \<open>\<open>p.read_text(encoding='utf-8')\<close>.\<close>

definition read_text :: "path \<Rightarrow> str io" where
  "read_text p fs =
     (case lookup fs p of
        None \<Rightarrow> (Inl (missing_error fs p), fs)
      | Some Dir \<Rightarrow> (Inl IsADirectoryError, fs)
      | Some (Binary _) \<Rightarrow> (Inl UnicodeDecodeError, fs)
      | Some (File t) \<Rightarrow> (Inr (universal_newlines t), fs))"

text \<open>
  Opening \<open>p\<close> for writing and storing a node there: the directory of \<open>p\<close>
  must exist, and \<open>p\<close> must not be a directory. The file is created or
  replaced.
\<close>

definition store :: "path \<Rightarrow> node \<Rightarrow> unit io" where
  "store p n fs =
     (case lookup fs (butlast p) of
        None \<Rightarrow> (Inl (missing_error fs (butlast p)), fs)
      | Some Dir \<Rightarrow>
          (case lookup fs p of
             Some Dir \<Rightarrow> (Inl IsADirectoryError, fs)
           | _ \<Rightarrow> (Inr (), AList.update p n fs))
      | Some _ \<Rightarrow> (Inl NotADirectoryError, fs))"

text \<open>\<open>p.write_text(t, encoding='utf-8')\<close> on the platform \<open>os\<close>.\<close>

definition write_text :: "os \<Rightarrow> path \<Rightarrow> str \<Rightarrow> unit io" where
  "write_text os p t = store p (File (os_newlines os t))"







section \<open>Phase 1: migrate_to_saas.py\<close>

definition LIB_DIR :: path where
  "LIB_DIR = [''lib'']"


definition MODELS_DIR :: path where
  "MODELS_DIR = LIB_DIR @ [''core'', ''models'']"





record MigrationReport =
  model_updates :: "string list"
  service_updates :: "string list"
  errors :: "string list"
  warnings :: "string list"

definition new_report :: MigrationReport where
  "new_report = \<lparr>model_updates = [], service_updates = [], errors = [], warnings = []\<rparr>"

definition add_model_update :: "MigrationReport \<Rightarrow> string \<Rightarrow> string \<Rightarrow> MigrationReport" where
  "add_model_update r file change =
     r\<lparr>model_updates := model_updates r @ [file @ '': '' @ change]\<rparr>"



definition add_warning :: "MigrationReport \<Rightarrow> string \<Rightarrow> MigrationReport" where
  "add_warning r msg = r\<lparr>warnings := warnings r @ [msg]\<rparr>"


text \<open>\<open>add_organization_id_to_model\<close>; \<open>file_path.name\<close> is the last component.\<close>

definition add_organization_id_to_model ::
  "os \<Rightarrow> (nat \<Rightarrow> bool) \<Rightarrow> path \<Rightarrow> MigrationReport \<Rightarrow> bool \<Rightarrow> (bool \<times> MigrationReport) io" where
  "add_organization_id_to_model os ua file_path report dry_run =
     io_bind (io_exists file_path) (\<lambda>ex.
       if \<not> ex
       then io_ret (False, add_warning report (''File not found: '' @ last file_path))
       else
         io_bind (read_text file_path) (\<lambda>content.
           case patch_factory ua content of
             SkippedAlreadyPresent \<Rightarrow>
               io_ret (False, add_warning report
                         (last file_path @ '': Already has organizationId, skipping''))
           | SkippedNoMatch \<Rightarrow>
               io_ret (False, add_warning report
                         (last file_path @ '': Could not find factory constructor''))
           | Applied new_content \<Rightarrow>
               if dry_run
               then io_ret (True, add_model_update report (last file_path)
                                    ''Would add organizationId field'')
               else
                 io_bind (write_text os file_path new_content) (\<lambda>_.
                   io_ret (True, add_model_update report (last file_path)
                                   ''Added organizationId field''))))"













section \<open>Phase 2: migrate_to_saas_phase2.py\<close>

text \<open>
  Phase 2 and phase 3 have no report object: what they tell the operator they
  print. The lines printed by the update functions are threaded through them as
  a list, newest last, each line a string of code points; the check mark is
  U+2705 and the warning sign U+26A0 U+FE0F. The banners and the summary of
  \<open>main\<close> and the progress lines of \<open>create_backup\<close> are left out.
\<close>

type_synonym out = "str list"

definition check_mark :: str where
  "check_mark = [9989]"

definition warning_sign :: str where
  "warning_sign = [9888, 65039]"


definition PROVIDERS_DIR :: path where
  "PROVIDERS_DIR = LIB_DIR @ [''providers'']"





text \<open>
  \<open>update_provider_file\<close>. \<open>provider_import\<close> is what the function computes
  from the text it has read: whether it leaves at one of its two early returns,
  and otherwise the content and the number of changes that it reaches the final
  test with.
\<close>

definition org_import :: str where
  "org_import = lit ''import 'organization_provider.dart';''"

definition import_pattern :: "item list" where
  "import_pattern = Bol # lits ''import ''"

definition provider_import :: "str \<Rightarrow> (str \<times> nat) option" where
  "provider_import content =
     (if \<not> contains (lit ''Supabase.instance.client'') content then None
      else if contains (lit ''currentOrganizationProvider'') content then None
      else if \<not> contains org_import content
              \<and> \<not> contains (lit ''organization_provider.dart'') content
      then
        (case re_search import_pattern content of
           None \<Rightarrow> Some (content, 0)
         | Some import_match \<Rightarrow>
             Some (take (mstart import_match) content @ org_import @ lit ''\<newline>''
                   @ drop (mstart import_match) content, 1))
      else Some (content, 0))"

definition update_provider_file :: "os \<Rightarrow> path \<Rightarrow> bool \<Rightarrow> out \<Rightarrow> ((bool \<times> nat) \<times> out) io" where
  "update_provider_file os file_path dry_run out =
     io_bind (read_text file_path) (\<lambda>original.
       case provider_import original of
         None \<Rightarrow> io_ret ((False, 0), out)
       | Some (content, changes) \<Rightarrow>
           if changes > 0 \<or> contains (lit ''Supabase.instance.client'') content
           then
             if dry_run
             then io_ret ((True, 1), out @ [lit ''  '' @ check_mark @ lit '' ''
                            @ lit (last file_path) @ lit '': Would add org import''])
             else
               io_bind (write_text os file_path content) (\<lambda>_.
                 io_ret ((True, changes), out @ [lit ''  '' @ check_mark @ lit '' ''
                            @ lit (last file_path) @ lit '': Added org import'']))
           else io_ret ((False, 0), out))"


definition settings_dir :: path where
  "settings_dir = LIB_DIR @ [''core'', ''models'', ''settings'']"

text \<open>One round of the loop of \<open>update_settings_models\<close>, and the loop.\<close>

definition update_settings_model ::
  "os \<Rightarrow> (nat \<Rightarrow> bool) \<Rightarrow> bool \<Rightarrow> string \<Rightarrow> nat \<times> out \<Rightarrow> (nat \<times> out) io" where
  "update_settings_model os ua dry_run filename = (\<lambda>(updates, out).
     (let file_path = settings_dir @ [filename]
      in io_bind (io_exists file_path) (\<lambda>ex.
           if \<not> ex then io_ret (updates, out)
           else
             io_bind (read_text file_path) (\<lambda>content.
               case patch_factory ua content of
                 SkippedAlreadyPresent \<Rightarrow> io_ret (updates, out)
               | SkippedNoMatch \<Rightarrow>
                   io_ret (updates, out @ [lit ''  '' @ warning_sign @ lit '' '' @ lit filename
                             @ lit '': Could not find factory constructor''])
               | Applied new_content \<Rightarrow>
                   if dry_run
                   then io_ret (updates + 1, out @ [lit ''  '' @ check_mark @ lit '' ''
                                  @ lit filename @ lit '': Would add organizationId field''])
                   else
                     io_bind (write_text os file_path new_content) (\<lambda>_.
                       io_ret (updates + 1, out @ [lit ''  '' @ check_mark @ lit '' ''
                                  @ lit filename @ lit '': Added organizationId field'']))))))"







section \<open>Phase 3: wire_org_context.py\<close>

text \<open>Python's \<open>t.find(needle)\<close>, \<open>t.find(needle, start)\<close> and \<open>t.rfind(needle)\<close>;
  \<open>None\<close> stands for the result \<open>-1\<close>.\<close>

definition py_find_from :: "str \<Rightarrow> str \<Rightarrow> nat \<Rightarrow> nat option" where
  "py_find_from needle t start =
     List.find (\<lambda>i. prefix needle (drop i t)) [start..<Suc (length t)]"

definition py_find :: "str \<Rightarrow> str \<Rightarrow> nat option" where
  "py_find needle t = py_find_from needle t 0"

definition py_rfind :: "str \<Rightarrow> str \<Rightarrow> nat option" where
  "py_rfind needle t = List.find (\<lambda>i. prefix needle (drop i t)) (rev [0..<Suc (length t)])"

definition SKIP_METHODS :: "string list" where
  "SKIP_METHODS =
     [''_parseDateTime'', ''_nowUtcIso'', ''_handleDbError'',
      ''_menuItemInsertPayload'', ''_sanitizeMenuItemUpdates'',
      ''_fetchSettingsRow'', ''_upsertSettingsRow'', ''_menuItemFromJson'',
      ''_buildNameSearchPatterns'', ''parseDateTime'',
      ''getMenuItems'', ''createMenuItem'', ''getOrders'',
      ''placeOrder'', ''verifyOrderPayment'',
      ''getOrder'',
      ''updateOrderStatus'', ''assignOrderToKitchen'', ''assignOrderToDelivery'',
      ''cancelOrder'', ''deleteOrder'', ''updateOrder'', ''markOrderAsNotPrinted'',
      ''toggleOrderPagato'',
      ''updateMenuItem'', ''deleteMenuItem'']"

definition methods_to_update :: "(string \<times> string) list" where
  "methods_to_update =
     [(''searchCashierCustomers'', ''cashier_customers''),
      (''findMatchingCustomer'', ''cashier_customers''),
      (''createCashierCustomer'', ''cashier_customers''),
      (''updateCashierCustomer'', ''cashier_customers''),
      (''incrementCustomerOrders'', ''cashier_customers''),
      (''getCashierCustomerById'', ''cashier_customers''),
      (''countItemsInSlot'', ''ordini''),
      (''countOrdersInSlot'', ''ordini''),
      (''getItemCountsBySlotRange'', ''ordini''),
      (''getPizzeria'', ''business_rules''),
      (''getPizzeriaSettings'', ''business_rules''),
      (''updateBusinessRules'', ''business_rules''),
      (''saveOrderManagementSettings'', ''order_management''),
      (''saveOrderManagementSettingsRaw'', ''order_management''),
      (''saveDeliveryConfigurationSettings'', ''delivery_configuration''),
      (''saveDisplayBrandingSettings'', ''display_branding''),
      (''saveKitchenManagementSettings'', ''kitchen_management''),
      (''saveBusinessRulesSettings'', ''business_rules''),
      (''getOrderManagementSettingsRaw'', ''order_management'')]"

text \<open>The pattern \<^verbatim>\<open>(Future<[^>]+>\s+name\s*\([^)]*)\<close> for a method name; group 1 is
  the whole match.\<close>

definition method_pattern :: "string \<Rightarrow> item list" where
  "method_pattern method_name =
     lits ''Future<'' @
     [Cls (\<lambda>c. c \<noteq> of_char CHR ''>'') Plus, chr CHR ''>'', Cls is_space Plus] @
     lits method_name @
     [Cls is_space Star, chr CHR ''('', Cls (\<lambda>c. c \<noteq> of_char CHR '')'') Star]"

text \<open>One round of the loop of \<open>update_database_service\<close> of phase 3 on the text
  that was read.\<close>

definition check_method :: "str \<Rightarrow> bool \<Rightarrow> string \<times> string \<Rightarrow> nat \<times> out \<Rightarrow> nat \<times> out" where
  "check_method content dry_run = (\<lambda>(method_name, table) (changes, out).
     if method_name \<in> set SKIP_METHODS then (changes, out)
     else if contains (lit method_name) content
     then
       (case re_search (method_pattern method_name) content of
          None \<Rightarrow> (changes, out)
        | Some m \<Rightarrow>
            (let method_sig = slice (mstart m) (mend m) content
             in if contains (lit ''organizationId'') method_sig then (changes, out)
                else if dry_run
                then (changes + 1,
                      out @ [lit ''  [TODO] '' @ lit method_name
                             @ lit ''() needs organizationId for '' @ lit table])
                else (changes + 1,
                      out @ [lit ''  [MANUAL] '' @ lit method_name
                             @ lit ''() - add organizationId for '' @ lit table])))
     else (changes, out))"

text \<open>The decimal digits of a number, as \<open>print\<close> writes it.\<close>

fun digits :: "nat \<Rightarrow> string" where
  "digits n = (if n < 10 then [char_of (48 + n)] else digits (n div 10) @ [char_of (48 + n mod 10)])"

definition update_database_service3 :: "bool \<Rightarrow> out \<Rightarrow> (nat \<times> out) io" where
  "update_database_service3 dry_run out =
     (let db_service_path = LIB_DIR @ [''core'', ''services'', ''database_service.dart'']
      in io_bind (read_text db_service_path) (\<lambda>content.
           case fold (check_method content dry_run) methods_to_update (0, out) of
             (changes, out) \<Rightarrow>
               io_ret (changes,
                       out @ [lit ''\<newline>  Total methods needing update: '' @ lit (digits changes)])))"

text \<open>
  \<open>update_provider_org_context\<close>. \<open>wire_content\<close> is the content that the
  apply branch writes, computed from the text that was read: the import added
  after the first import by \<open>re.sub\<close> with \<open>count=1\<close>, then the comment added
  after the line of the last \<open>import\<close>.
\<close>

definition import_line :: str where
  "import_line = lit ''import 'organization_provider.dart';\<newline>''"

definition quoted_import_pattern :: "item list" where
  "quoted_import_pattern =
     lits ''import '' @
     [chr (CHR 0x27), Cls (\<lambda>c. c \<noteq> 39) Plus, chr (CHR 0x27), chr CHR '';'']"

definition todo_comment :: str where
  "todo_comment = lit (
''\<newline>// TODO: Multi-tenant - Watch currentOrganizationProvider:\<newline>'' @
''//   final orgId = await ref.watch(currentOrganizationProvider.future);\<newline>'' @
''//   Add .eq('organization_id', orgId) to queries\<newline>'')"

definition add_import :: "str \<Rightarrow> str" where
  "add_import content =
     (if contains (lit ''import '' @ [39]) content
      then
        (case re_search quoted_import_pattern content of
           None \<Rightarrow> content
         | Some m \<Rightarrow>
             (let group0 = slice (mstart m) (mend m) content
              in take (mstart m) content
                 @ (if py_find group0 content = py_find (lit ''import '' @ [39]) content
                    then group0 @ lit ''\<newline>'' @ import_line
                    else group0)
                 @ drop (mend m) content))
      else content)"

definition add_todo :: "str \<Rightarrow> str" where
  "add_todo content =
     (if \<not> contains (lit ''TODO: Multi-tenant'') content
      then
        (case py_rfind (lit ''import '') content of
           None \<Rightarrow> content
         | Some import_end \<Rightarrow>
             (let line_end1 = (case py_find_from (lit ''\<newline>'') content import_end of
                                 None \<Rightarrow> 0
                               | Some line_end \<Rightarrow> line_end + 1)
              in take line_end1 content @ todo_comment @ drop line_end1 content))
      else content)"

definition wire_content :: "str \<Rightarrow> str" where
  "wire_content content =
     (let has_import = contains (lit ''organization_provider.dart'') content
      in add_todo (if \<not> has_import then add_import content else content))"

definition update_provider_org_context :: "os \<Rightarrow> path \<Rightarrow> bool \<Rightarrow> out \<Rightarrow> (bool \<times> out) io" where
  "update_provider_org_context os provider_path dry_run out =
     io_bind (read_text provider_path) (\<lambda>content.
       if \<not> contains (lit ''Supabase.instance.client'') content then io_ret (False, out)
       else if contains (lit ''currentOrganizationProvider.future'') content
       then io_ret (False, out)
       else if dry_run
       then io_ret (True, out @ [lit ''  '' @ check_mark @ lit '' '' @ lit (last provider_path)
                           @ lit '': Needs org context wiring''])
       else
         io_bind (write_text os provider_path (wire_content content)) (\<lambda>_.
           io_ret (True, out @ [lit ''  '' @ check_mark @ lit '' '' @ lit (last provider_path)
                           @ lit '': Added org context TODO''])))"





section \<open>Notions used in the statements\<close>

text \<open>A computation is read-only when it leaves every file system as it found it,
  whether it returns or raises.\<close>

definition readonly :: "'a io \<Rightarrow> bool" where
  "readonly m \<longleftrightarrow> (\<forall>fs. snd (m fs) = fs)"

text \<open>A computation changes only the paths in \<open>P\<close> when every other path holds
  after it what it held before, whether the computation returns or raises.\<close>

definition changes_only :: "(path \<Rightarrow> bool) \<Rightarrow> 'a io \<Rightarrow> bool" where
  "changes_only P m \<longleftrightarrow> (\<forall>fs q. \<not> P q \<longrightarrow> lookup (snd (m fs)) q = lookup fs q)"

text \<open>The text \<open>s\<close> occurs in \<open>t\<close> at position \<open>k\<close>; position \<open>k\<close> of \<open>t\<close> is
  the start of a line.\<close>

definition occurs_at :: "str \<Rightarrow> str \<Rightarrow> nat \<Rightarrow> bool" where
  "occurs_at s t k \<longleftrightarrow> prefix s (drop k t)"

definition line_start :: "str \<Rightarrow> nat \<Rightarrow> bool" where
  "line_start t k \<longleftrightarrow> k = 0 \<or> t ! (k - 1) = 10"

section \<open>Sample inputs\<close>

text \<open>
  A small project tree and the texts of its files, used where a statement is
  checked on a concrete input. The first model has a non-ASCII letter (U+00E0)
  in its first line.
\<close>

definition sample_text :: str where
  "sample_text = lit ''// Citt'' @ [224] @ lit ''\<newline>factory Foo({String? a,}) = _Foo;''"

definition sample_patched :: str where
  "sample_patched = lit ''// Citt'' @ [224] @ lit ''\<newline>factory Foo({\<newline>    @JsonKey(name: 'organization_id') String? organizationId,String? a,}) = _Foo;''"

definition sample_service :: str where
  "sample_service = lit ''import 'x.dart';\<newline>class DatabaseService {\<newline>  Future<int> countOrdersInSlot() async { return _c.from('ordini').select(); }\<newline>}\<newline>''"

definition sample_provider :: str where
  "sample_provider = lit ''import 'a.dart';\<newline>final c = Supabase.instance.client;\<newline>''"

definition fs_sample :: fs where
  "fs_sample =
     [([''lib''], Dir),
      ([''lib'', ''core''], Dir),
      ([''lib'', ''core'', ''models''], Dir),
      ([''lib'', ''core'', ''models'', ''order_model.dart''], File sample_text),
      ([''lib'', ''core'', ''models'', ''settings''], Dir),
      ([''lib'', ''core'', ''models'', ''settings'', ''business_rules_settings.dart''], File sample_text),
      ([''lib'', ''core'', ''services''], Dir),
      ([''lib'', ''core'', ''services'', ''database_service.dart''], File sample_service),
      ([''lib'', ''providers''], Dir),
      ([''lib'', ''providers'', ''categories_provider.dart''], File sample_provider)]"

definition sample_marked :: str where
  "sample_marked = lit ''factory Foo({String? organizationId,}) = _Foo;''"

definition sample_bare_provider :: str where
  "sample_bare_provider = lit ''final c = Supabase.instance.client;''"

definition fs_bare :: fs where
  "fs_bare =
     [([''lib''], Dir),
      ([''lib'', ''providers''], Dir),
      ([''lib'', ''providers'', ''categories_provider.dart''], File sample_bare_provider)]"

definition sample_provider_imported :: str where
  "sample_provider_imported =
     lit ''import 'organization_provider.dart';\<newline>import 'a.dart';\<newline>final c = Supabase.instance.client;\<newline>''"

definition fs_marked :: fs where
  "fs_marked =
     [([''lib''], Dir),
      ([''lib'', ''core''], Dir),
      ([''lib'', ''core'', ''models''], Dir),
      ([''lib'', ''core'', ''models'', ''order_model.dart''], File sample_marked),
      ([''lib'', ''core'', ''models'', ''settings''], Dir),
      ([''lib'', ''core'', ''models'', ''settings'', ''business_rules_settings.dart''], File sample_marked)]"






section \<open>Properties of the text operations and of the matcher\<close>

lemma contains_iff: "contains s t \<longleftrightarrow> (\<exists>a b. t = a @ s @ b)"
proof (induction t)
  case Nil
  then show ?case by auto
next
  case (Cons c cs)
  show ?case
  proof
    assume "contains s (c # cs)"
    then consider "prefix s (c # cs)" | "contains s cs" by auto
    then show "\<exists>a b. c # cs = a @ s @ b"
    proof cases
      case 1
      then obtain b where "c # cs = s @ b" by (auto simp: prefix_def)
      then have "c # cs = [] @ s @ b" by simp
      then show ?thesis by blast
    next
      case 2
      with Cons.IH obtain a b where "cs = a @ s @ b" by blast
      then have "c # cs = (c # a) @ s @ b" by simp
      then show ?thesis by blast
    qed
  next
    assume "\<exists>a b. c # cs = a @ s @ b"
    then obtain a b where ab: "c # cs = a @ s @ b" by blast
    show "contains s (c # cs)"
    proof (cases a)
      case Nil
      with ab have "prefix s (c # cs)" by (simp add: prefix_def)
      then show ?thesis by simp
    next
      case (Cons x a')
      with ab have "cs = a' @ s @ b" by simp
      with Cons.IH have "contains s cs" by blast
      then show ?thesis by simp
    qed
  qed
qed

lemma marks_weaken:
  assumes "Suc i \<le> e \<and> e \<le> n \<and>
     (\<exists>new. ms' = ms @ new \<and> length new = k \<and> sorted new \<and> (\<forall>x \<in> set new. Suc i \<le> x \<and> x \<le> e))"
  shows "i \<le> e \<and> e \<le> n \<and>
     (\<exists>new. ms' = ms @ new \<and> length new = k \<and> sorted new \<and> (\<forall>x \<in> set new. i \<le> x \<and> x \<le> e))"
proof -
  from assms obtain new where a: "Suc i \<le> e" "e \<le> n" "ms' = ms @ new" "length new = k" "sorted new"
    and b: "\<forall>x \<in> set new. Suc i \<le> x \<and> x \<le> e" by blast
  from b have c: "\<forall>x \<in> set new. i \<le> x \<and> x \<le> e" by (simp add: Suc_leD)
  have "ms' = ms @ new \<and> length new = k \<and> sorted new \<and> (\<forall>x \<in> set new. i \<le> x \<and> x \<le> e)"
    using a c by blast
  then have "\<exists>new. ms' = ms @ new \<and> length new = k \<and> sorted new \<and> (\<forall>x \<in> set new. i \<le> x \<and> x \<le> e)"
    by (rule exI)
  moreover have "i \<le> e" using a by simp
  ultimately show ?thesis using a(2) by blast
qed

lemma rmatch_bounds:
  "rmatch pat t i ms = Some (e, ms') \<Longrightarrow> i \<le> length t \<Longrightarrow>
     i \<le> e \<and> e \<le> length t \<and>
     (\<exists>new. ms' = ms @ new \<and> length new = length (filter (\<lambda>x. x = Mark) pat)
            \<and> sorted new \<and> (\<forall>x \<in> set new. i \<le> x \<and> x \<le> e))"
proof (induction pat t i ms arbitrary: e ms' rule: rmatch.induct)
  case (1 t i ms)
  then show ?case by (simp add: rmatch.simps(1))
next
  case (2 r t i ms)
  from "2.prems" have "rmatch r t i (ms @ [i]) = Some (e, ms')" by (simp add: rmatch.simps(2))
  from "2.IH"[OF this "2.prems"(2)] obtain new where
    b: "i \<le> e" "e \<le> length t" and n: "ms' = (ms @ [i]) @ new"
    "length new = length (filter (\<lambda>x. x = Mark) r)" "sorted new" "\<forall>x \<in> set new. i \<le> x \<and> x \<le> e"
    by blast
  have "ms' = ms @ (i # new)" using n by simp
  moreover have "length (i # new) = length (filter (\<lambda>x. x = Mark) (Mark # r))" using n by simp
  moreover have "sorted (i # new)" using n by simp
  moreover have "\<forall>x \<in> set (i # new). i \<le> x \<and> x \<le> e" using n b by simp
  ultimately show ?case using b by blast
next
  case (3 r t i ms)
  from "3.prems" have c: "i = 0 \<or> t ! (i - 1) = 10" and m: "rmatch r t i ms = Some (e, ms')"
    by (simp_all add: rmatch.simps(3) split: if_splits)
  from "3.IH"[OF c m "3.prems"(2)] show ?case by simp
next
  case (4 p r t i ms)
  from "4.prems" have c: "i < length t \<and> p (t ! i)" and m: "rmatch r t (Suc i) ms = Some (e, ms')"
    by (simp_all add: rmatch.simps(4) split: if_splits)
  from c have "Suc i \<le> length t" by simp
  from "4.IH"[OF c m this] have "Suc i \<le> e \<and> e \<le> length t \<and>
     (\<exists>new. ms' = ms @ new \<and> length new = length (filter (\<lambda>x. x = Mark) (Cls p Once # r))
            \<and> sorted new \<and> (\<forall>x \<in> set new. Suc i \<le> x \<and> x \<le> e))" by simp
  then show ?case by (rule marks_weaken)
next
  case (5 p r t i ms)
  note eq = rmatch.simps(5)[of p r t i ms]
  show ?case
  proof (cases "i < length t \<and> p (t ! i)")
    case True
    show ?thesis
    proof (cases "rmatch (Cls p Star # r) t (Suc i) ms")
      case None
      with True "5.prems" eq have "rmatch r t i ms = Some (e, ms')" by simp
      from "5.IH"(2)[OF True None this "5.prems"(2)] show ?thesis by simp
    next
      case (Some x)
      with True "5.prems" eq have m: "rmatch (Cls p Star # r) t (Suc i) ms = Some (e, ms')" by simp
      from True have "Suc i \<le> length t" by simp
      from "5.IH"(1)[OF True m this] show ?thesis by (rule marks_weaken)
    qed
  next
    case False
    with "5.prems" eq have "rmatch r t i ms = Some (e, ms')" by simp
    from "5.IH"(3)[OF False this "5.prems"(2)] show ?thesis by simp
  qed
next
  case (6 p r t i ms)
  note eq = rmatch.simps(6)[of p r t i ms]
  from "6.prems" eq have c: "i < length t \<and> p (t ! i)"
    and m: "rmatch (Cls p Star # r) t (Suc i) ms = Some (e, ms')"
    by (simp_all split: if_splits)
  from c have "Suc i \<le> length t" by simp
  from "6.IH"[OF c m this] have "Suc i \<le> e \<and> e \<le> length t \<and>
     (\<exists>new. ms' = ms @ new \<and> length new = length (filter (\<lambda>x. x = Mark) (Cls p Plus # r))
            \<and> sorted new \<and> (\<forall>x \<in> set new. Suc i \<le> x \<and> x \<le> e))" by simp
  then show ?case by (rule marks_weaken)
next
  case (7 p r t i ms)
  note eq = rmatch.simps(7)[of p r t i ms]
  show ?case
  proof (cases "rmatch r t i ms")
    case None
    with "7.prems" eq have c: "i < length t \<and> p (t ! i)"
      and m: "rmatch (Cls p LazyStar # r) t (Suc i) ms = Some (e, ms')"
      by (simp_all split: if_splits)
    from c have "Suc i \<le> length t" by simp
    from "7.IH"(2)[OF None c m this] show ?thesis by (rule marks_weaken)
  next
    case (Some x)
    with "7.prems" eq have "rmatch r t i ms = Some (e, ms')" by simp
    from "7.IH"(1)[OF this "7.prems"(2)] show ?thesis by simp
  qed
qed

lemma take_slice: "a \<le> b \<Longrightarrow> take a t @ slice a b t = take b t"
proof -
  assume "a \<le> b"
  then have "take b t = take (a + (b - a)) t" by simp
  also have "\<dots> = take a t @ take (b - a) (drop a t)" by (rule take_add)
  finally show ?thesis by (simp add: slice_def)
qed

lemma slice_drop: "a \<le> b \<Longrightarrow> slice a b t @ drop b t = drop a t"
proof -
  assume ab: "a \<le> b"
  have "drop a t = take (b - a) (drop a t) @ drop (b - a) (drop a t)"
    by (rule append_take_drop_id[symmetric])
  also have "drop (b - a) (drop a t) = drop b t"
  proof -
    from ab have "b - a + a = b" by simp
    then show ?thesis by (simp only: drop_drop)
  qed
  finally show ?thesis by (simp add: slice_def)
qed

lemma upt_nth_id: "i < Suc n \<Longrightarrow> [0..<Suc n] ! i = i"
  using nth_upt[of 0 i "Suc n"] by (simp del: upt_Suc)

lemma find_upt_Some:
  assumes "List.find P [0..<Suc n] = Some s"
  shows "s \<le> n \<and> P s \<and> (\<forall>j < s. \<not> P j)"
proof -
  from assms obtain i where i: "i < length [0..<Suc n]" "P ([0..<Suc n] ! i)"
    "s = [0..<Suc n] ! i" "\<forall>j < i. \<not> P ([0..<Suc n] ! j)"
    unfolding find_Some_iff by blast
  from i(1) have lt: "i < Suc n" by (simp del: upt_Suc)
  then have si: "s = i" using i(3) upt_nth_id by simp
  have "\<forall>j < i. \<not> P j"
  proof (intro allI impI)
    fix j assume "j < i"
    with lt have "j < Suc n" by simp
    then have "[0..<Suc n] ! j = j" by (rule upt_nth_id)
    with i(4) \<open>j < i\<close> show "\<not> P j" by metis
  qed
  moreover have "P i" using i(2) upt_nth_id[OF lt] by simp
  ultimately show ?thesis using si lt by simp
qed

lemma find_upt_None:
  assumes "List.find P [0..<Suc n] = None" and "j \<le> n"
  shows "\<not> P j"
proof -
  from assms(2) have "j \<in> set [0..<Suc n]" by (simp del: upt_Suc)
  with assms(1) show ?thesis unfolding find_None_iff by blast
qed

lemma re_search_Some:
  assumes "re_search pat t = Some m"
  shows "mstart m \<le> length t \<and> rmatch pat t (mstart m) [] = Some (mend m, marks m)
         \<and> (\<forall>j < mstart m. rmatch pat t j [] = None)"
proof -
  from assms obtain s where f: "List.find (\<lambda>s. rmatch pat t s [] \<noteq> None) [0..<Suc (length t)] = Some s"
    unfolding re_search_def by (cases "List.find (\<lambda>s. rmatch pat t s [] \<noteq> None) [0..<Suc (length t)]") simp_all
  from find_upt_Some[OF f] have s: "s \<le> length t" "rmatch pat t s [] \<noteq> None"
    by blast+
  have least: "\<forall>j < s. rmatch pat t j [] = None"
  proof (intro allI impI)
    fix j assume "j < s"
    with find_upt_Some[OF f] have "\<not> (rmatch pat t j [] \<noteq> None)" by blast
    then show "rmatch pat t j [] = None" by blast
  qed
  from s(2) obtain e ms where r: "rmatch pat t s [] = Some (e, ms)" by auto
  from assms[unfolded re_search_def f] have "m = \<lparr>mstart = s, mend = e, marks = ms\<rparr>"
    by (simp add: r)
  with s r least show ?thesis by simp
qed

lemma re_search_None:
  assumes "re_search pat t = None" and "j \<le> length t"
  shows "rmatch pat t j [] = None"
proof -
  have "List.find (\<lambda>s. rmatch pat t s [] \<noteq> None) [0..<Suc (length t)] = None"
  proof (cases "List.find (\<lambda>s. rmatch pat t s [] \<noteq> None) [0..<Suc (length t)]")
    case None
    then show ?thesis .
  next
    case (Some s)
    from find_upt_Some[OF Some] obtain e ms where "rmatch pat t s [] = Some (e, ms)" by auto
    with Some assms(1) show ?thesis unfolding re_search_def by simp
  qed
  from find_upt_None[OF this assms(2)] show ?thesis by blast
qed

lemma factory_marks: "length (filter (\<lambda>x. x = Mark) (factory_pattern ua)) = 2"
  by (simp add: factory_pattern_def lits_def chr_def)

lemma factory_match_shape:
  assumes "re_search (factory_pattern ua) t = Some m"
  shows "\<exists>g1 g2. marks m = [g1, g2] \<and> mstart m \<le> g1 \<and> g1 \<le> g2 \<and> g2 \<le> mend m \<and> mend m \<le> length t"
proof -
  from re_search_Some[OF assms] have s: "mstart m \<le> length t"
    and r: "rmatch (factory_pattern ua) t (mstart m) [] = Some (mend m, marks m)" by simp_all
  from rmatch_bounds[OF r s] obtain new where
    b: "mstart m \<le> mend m" "mend m \<le> length t" and n: "marks m = new"
      "length new = 2" "sorted new" "\<forall>x \<in> set new. mstart m \<le> x \<and> x \<le> mend m"
    by (auto simp: factory_marks)
  from n(2) obtain g1 g2 where g: "new = [g1, g2]"
    by (cases new; cases "tl new"; cases "tl (tl new)") auto
  with n b show ?thesis by auto
qed

lemma patch_factory_Applied:
  assumes "patch_factory ua t = Applied new"
  shows "\<not> contains (lit ''organizationId'') t \<and> \<not> contains (lit ''organization_id'') t \<and>
         (\<exists>m. re_search (factory_pattern ua) t = Some m \<and> mstart m \<le> marks m ! 0
              \<and> marks m ! 0 \<le> length t
              \<and> new = take (marks m ! 0) t @ new_field @ drop (marks m ! 0) t)"
proof -
  from assms have nc: "\<not> contains (lit ''organizationId'') t" "\<not> contains (lit ''organization_id'') t"
    by (auto simp: patch_factory_def split: if_splits)
  with assms obtain m where m: "re_search (factory_pattern ua) t = Some m"
    by (auto simp: patch_factory_def split: option.splits)
  from factory_match_shape[OF m] obtain g1 g2 where
    g: "marks m = [g1, g2]" "mstart m \<le> g1" "g1 \<le> g2" "g2 \<le> mend m" "mend m \<le> length t"
    by blast
  from assms nc m g(1) have
    "new = take (mstart m) t @ slice (mstart m) g1 t @ new_field @ slice g1 g2 t
           @ slice g2 (mend m) t @ drop (mend m) t"
    by (simp add: patch_factory_def Let_def)
  also have "slice g2 (mend m) t @ drop (mend m) t = drop g2 t" using g(4) by (rule slice_drop)
  also have "slice g1 g2 t @ drop g2 t = drop g1 t" using g(3) by (rule slice_drop)
  finally have "new = (take (mstart m) t @ slice (mstart m) g1 t) @ new_field @ drop g1 t" by simp
  also have "take (mstart m) t @ slice (mstart m) g1 t = take g1 t" using g(2) by (rule take_slice)
  finally have "new = take g1 t @ new_field @ drop g1 t" .
  with nc m g show ?thesis by auto
qed

lemma new_field_marker: "contains (lit ''organizationId'') new_field"
  by (simp add: new_field_def lit_def)

lemma contains_mid: "contains s x \<Longrightarrow> contains s (a @ x @ b)"
proof -
  assume "contains s x"
  then obtain u v where "x = u @ s @ v" by (auto simp: contains_iff)
  then have "a @ x @ b = (a @ u) @ s @ (v @ b)" by simp
  then show ?thesis unfolding contains_iff by blast
qed

lemma factory_idempotent:
  "patch_factory ua t = Applied new \<Longrightarrow> patch_factory ua new = SkippedAlreadyPresent"
proof -
  assume "patch_factory ua t = Applied new"
  from patch_factory_Applied[OF this] obtain k where "new = take k t @ new_field @ drop k t" by blast
  then have "contains (lit ''organizationId'') new" using contains_mid[OF new_field_marker] by simp
  then show ?thesis by (simp add: patch_factory_def)
qed

section \<open>Properties of the newline translations\<close>

lemma un_no_cr: "13 \<notin> set (universal_newlines t)"
  by (induction t rule: universal_newlines.induct) auto

lemma un_id: "13 \<notin> set t \<Longrightarrow> universal_newlines t = t"
  by (induction t rule: universal_newlines.induct) auto

lemma un_Cons: "c \<noteq> 13 \<Longrightarrow> universal_newlines (c # r) = c # universal_newlines r"
  by (cases r) auto

lemma un_append_left: "13 \<notin> set s \<Longrightarrow> universal_newlines (s @ b) = s @ universal_newlines b"
  by (induction s) (auto simp: un_Cons)

lemma un_split:
  "c \<noteq> 10 \<Longrightarrow> universal_newlines (a @ c # r) = universal_newlines a @ universal_newlines (c # r)"
  by (induction a rule: universal_newlines.induct) auto

lemma contains_un:
  assumes "contains s t" and "13 \<notin> set s" and "10 \<notin> set s"
  shows "contains s (universal_newlines t)"
proof (cases s)
  case Nil
  then show ?thesis by (cases "universal_newlines t") auto
next
  case (Cons c r)
  from assms(1) obtain a b where t: "t = a @ s @ b" by (auto simp: contains_iff)
  from Cons assms(3) have c: "c \<noteq> 10" by auto
  have "universal_newlines t = universal_newlines a @ universal_newlines (s @ b)"
    unfolding t Cons using un_split[OF c] by simp
  also have "universal_newlines (s @ b) = s @ universal_newlines b"
    using assms(2) by (rule un_append_left)
  finally show ?thesis by (auto simp: contains_iff)
qed

lemma osnl_posix: "os_newlines Posix t = t"
  by (induction t) (auto simp: os_newlines_def linesep_def)

lemma osnl_Nil: "os_newlines os [] = []"
  by (simp add: os_newlines_def)

lemma osnl_Cons: "os_newlines os (c # t) = (if c = 10 then linesep os else [c]) @ os_newlines os t"
  by (simp add: os_newlines_def)

lemma un_osnl: "13 \<notin> set t \<Longrightarrow> universal_newlines (os_newlines os t) = t"
proof (induction t)
  case Nil
  then show ?case by (simp add: osnl_Nil)
next
  case (Cons c t)
  then have ih: "universal_newlines (os_newlines os t) = t" and c: "c \<noteq> 13" by auto
  show ?case
  proof (cases "c = 10")
    case False
    with c ih show ?thesis by (simp add: osnl_Cons un_Cons)
  next
    case True
    show ?thesis
    proof (cases os)
      case Posix
      with True ih show ?thesis by (simp add: osnl_Cons linesep_def un_Cons)
    next
      case Windows
      with True ih show ?thesis by (simp add: osnl_Cons linesep_def)
    qed
  qed
qed

section \<open>Properties of the file operations\<close>

lemma lookup_update:
  "p \<noteq> [] \<Longrightarrow> lookup (AList.update p v fs) q = (if q = p then Some v else lookup fs q)"
  by (simp add: lookup_def update_conv')

lemma store_Inr:
  assumes "store p n fs = (Inr u, fs')"
  shows "p \<noteq> [] \<and> fs' = AList.update p n fs \<and> lookup fs (butlast p) = Some Dir
         \<and> lookup fs p \<noteq> Some Dir"
proof -
  from assms have d: "lookup fs (butlast p) = Some Dir"
    by (auto simp: store_def split: option.splits node.splits)
  with assms have nd: "lookup fs p \<noteq> Some Dir" and f: "fs' = AList.update p n fs"
    by (auto simp: store_def split: option.splits node.splits)
  from nd have "p \<noteq> []" by (auto simp: lookup_def)
  with d nd f show ?thesis by simp
qed

lemma store_Inl: "store p n fs = (Inl e, fs') \<Longrightarrow> fs' = fs"
  by (auto simp: store_def split: option.splits node.splits)

lemma store_ok:
  "lookup fs (butlast p) = Some Dir \<Longrightarrow> lookup fs p \<noteq> Some Dir \<Longrightarrow>
   store p n fs = (Inr (), AList.update p n fs)"
  by (auto simp: store_def split: option.splits node.splits)

lemma write_text_Inr:
  assumes "write_text os p t fs = (Inr u, fs')"
  shows "p \<noteq> [] \<and> fs' = AList.update p (File (os_newlines os t)) fs
         \<and> lookup fs (butlast p) = Some Dir \<and> lookup fs p \<noteq> Some Dir"
  using store_Inr[OF assms[unfolded write_text_def]] .

lemma write_text_Inl: "write_text os p t fs = (Inl e, fs') \<Longrightarrow> fs' = fs"
  unfolding write_text_def by (rule store_Inl)

lemma write_text_ok:
  "lookup fs (butlast p) = Some Dir \<Longrightarrow> lookup fs p \<noteq> Some Dir \<Longrightarrow>
   write_text os p t fs = (Inr (), AList.update p (File (os_newlines os t)) fs)"
  unfolding write_text_def by (rule store_ok)

lemma write_text_same:
  assumes "lookup fs p = Some (File (os_newlines os t))" and "p \<noteq> []"
    and "lookup fs (butlast p) = Some Dir"
  shows "write_text os p t fs = (Inr (), fs)"
proof -
  from assms(1,2) have "map_of fs p = Some (File (os_newlines os t))" by (simp add: lookup_def)
  then have "AList.update p (File (os_newlines os t)) fs = fs" by (rule update_triv)
  with assms show ?thesis by (simp add: write_text_ok)
qed

lemma read_text_file: "lookup fs p = Some (File t) \<Longrightarrow> read_text p fs = (Inr (universal_newlines t), fs)"
  by (simp add: read_text_def)

lemma read_text_Inr:
  "read_text p fs = (Inr c, fs') \<Longrightarrow>
   fs' = fs \<and> (\<exists>t. lookup fs p = Some (File t) \<and> c = universal_newlines t)"
  by (auto simp: read_text_def split: option.splits node.splits)

lemma read_text_Inl:
  "read_text p fs = (Inl e, fs') \<Longrightarrow> fs' = fs \<and> (\<forall>t. lookup fs p \<noteq> Some (File t))"
  by (auto simp: read_text_def split: option.splits node.splits)

lemma read_text_other:
  "lookup fs p = Some n \<Longrightarrow> (\<forall>t. n \<noteq> File t) \<Longrightarrow>
   read_text p fs = (Inl (if n = Dir then IsADirectoryError else UnicodeDecodeError), fs)"
  by (cases n) (simp_all add: read_text_def)

lemma add_model_missing:
  "lookup fs p = None \<Longrightarrow>
   add_organization_id_to_model os ua p r d fs
     = (Inr (False, add_warning r (''File not found: '' @ last p)), fs)"
  by (simp add: add_organization_id_to_model_def io_bind_def io_exists_def io_ret_def path_exists_def)

lemma add_model_other:
  "lookup fs p = Some n \<Longrightarrow> (\<forall>t. n \<noteq> File t) \<Longrightarrow>
   add_organization_id_to_model os ua p r d fs
     = (Inl (if n = Dir then IsADirectoryError else UnicodeDecodeError), fs)"
  by (simp add: add_organization_id_to_model_def io_bind_def io_exists_def io_ret_def
        path_exists_def read_text_other)

lemma add_model_file:
  "lookup fs p = Some (File t) \<Longrightarrow>
   add_organization_id_to_model os ua p r d fs =
     (case patch_factory ua (universal_newlines t) of
        SkippedAlreadyPresent \<Rightarrow>
          (Inr (False, add_warning r (last p @ '': Already has organizationId, skipping'')), fs)
      | SkippedNoMatch \<Rightarrow>
          (Inr (False, add_warning r (last p @ '': Could not find factory constructor'')), fs)
      | Applied new \<Rightarrow>
          if d then (Inr (True, add_model_update r (last p) ''Would add organizationId field''), fs)
          else (case write_text os p new fs of
                  (Inl e, fs') \<Rightarrow> (Inl e, fs')
                | (Inr u, fs') \<Rightarrow>
                    (Inr (True, add_model_update r (last p) ''Added organizationId field''), fs')))"
  by (simp add: add_organization_id_to_model_def io_bind_def io_exists_def io_ret_def
        path_exists_def read_text_file split: patch_result.splits prod.splits sum.splits)

lemma settings_missing:
  "lookup fs (settings_dir @ [f]) = None \<Longrightarrow>
   update_settings_model os ua d f (n, out) fs = (Inr (n, out), fs)"
  by (simp add: update_settings_model_def io_bind_def io_exists_def io_ret_def path_exists_def Let_def)

lemma settings_other:
  "lookup fs (settings_dir @ [f]) = Some nd \<Longrightarrow> (\<forall>t. nd \<noteq> File t) \<Longrightarrow>
   update_settings_model os ua d f (n, out) fs
     = (Inl (if nd = Dir then IsADirectoryError else UnicodeDecodeError), fs)"
  by (simp add: update_settings_model_def io_bind_def io_exists_def io_ret_def
        path_exists_def read_text_other Let_def)

lemma settings_file:
  "lookup fs (settings_dir @ [f]) = Some (File t) \<Longrightarrow>
   update_settings_model os ua d f (n, out) fs =
     (case patch_factory ua (universal_newlines t) of
        SkippedAlreadyPresent \<Rightarrow> (Inr (n, out), fs)
      | SkippedNoMatch \<Rightarrow>
          (Inr (n, out @ [lit ''  '' @ warning_sign @ lit '' '' @ lit f
                          @ lit '': Could not find factory constructor'']), fs)
      | Applied new \<Rightarrow>
          if d then (Inr (n + 1, out @ [lit ''  '' @ check_mark @ lit '' '' @ lit f
                                       @ lit '': Would add organizationId field'']), fs)
          else (case write_text os (settings_dir @ [f]) new fs of
                  (Inl e, fs') \<Rightarrow> (Inl e, fs')
                | (Inr u, fs') \<Rightarrow>
                    (Inr (n + 1, out @ [lit ''  '' @ check_mark @ lit '' '' @ lit f
                                       @ lit '': Added organizationId field'']), fs')))"
  by (simp add: update_settings_model_def io_bind_def io_exists_def io_ret_def
        path_exists_def read_text_file Let_def split: patch_result.splits prod.splits sum.splits)

lemma node_cases [case_names missing other regular]:
  assumes "lookup fs p = None \<Longrightarrow> P"
    and "\<And>n. lookup fs p = Some n \<Longrightarrow> \<forall>t. n \<noteq> File t \<Longrightarrow> P"
    and "\<And>t. lookup fs p = Some (File t) \<Longrightarrow> P"
  shows P
proof (cases "lookup fs p")
  case None
  then show ?thesis by (rule assms(1))
next
  case (Some n)
  show ?thesis
  proof (cases "\<exists>t. n = File t")
    case True
    with Some assms(3) show ?thesis by blast
  next
    case False
    with Some assms(2) show ?thesis by blast
  qed
qed

lemma add_model_True:
  assumes "add_organization_id_to_model os ua p r d fs = (Inr (True, r'), fs')"
  shows "\<exists>t new. lookup fs p = Some (File t) \<and> patch_factory ua (universal_newlines t) = Applied new \<and>
           (if d then fs' = fs \<and> r' = add_model_update r (last p) ''Would add organizationId field''
            else p \<noteq> [] \<and> fs' = AList.update p (File (os_newlines os new)) fs
                 \<and> r' = add_model_update r (last p) ''Added organizationId field'')"
proof (cases rule: node_cases[of fs p])
  case missing
  from assms show ?thesis unfolding add_model_missing[OF missing] by simp
next
  case (other n)
  from assms show ?thesis unfolding add_model_other[OF other] by simp
next
  case (regular t)
  note l = regular
  note eq = assms[unfolded add_model_file[OF l]]
  show ?thesis
  proof (cases "patch_factory ua (universal_newlines t)")
    case (Applied new)
    show ?thesis
    proof (cases d)
      case True
      with eq Applied l show ?thesis by auto
    next
      case False
      with eq Applied obtain u where w: "write_text os p new fs = (Inr u, fs')"
        and r': "r' = add_model_update r (last p) ''Added organizationId field''"
        by (auto split: prod.splits sum.splits)
      from write_text_Inr[OF w] False l Applied r' show ?thesis by auto
    qed
  next
    case SkippedAlreadyPresent
    with eq show ?thesis by simp
  next
    case SkippedNoMatch
    with eq show ?thesis by simp
  qed
qed

lemma settings_Suc:
  assumes "update_settings_model os ua d f (n, out) fs = (Inr (Suc n, out'), fs')"
  shows "\<exists>t new. lookup fs (settings_dir @ [f]) = Some (File t)
           \<and> patch_factory ua (universal_newlines t) = Applied new \<and>
           (if d then fs' = fs
            else fs' = AList.update (settings_dir @ [f]) (File (os_newlines os new)) fs)"
proof (cases rule: node_cases[of fs "settings_dir @ [f]"])
  case missing
  from assms show ?thesis unfolding settings_missing[OF missing] by simp
next
  case (other nd)
  from assms show ?thesis unfolding settings_other[OF other] by simp
next
  case (regular t)
  note l = regular
  note eq = assms[unfolded settings_file[OF l]]
  show ?thesis
  proof (cases "patch_factory ua (universal_newlines t)")
    case (Applied new)
    show ?thesis
    proof (cases d)
      case True
      with eq Applied l show ?thesis by auto
    next
      case False
      with eq Applied obtain u where w: "write_text os (settings_dir @ [f]) new fs = (Inr u, fs')"
        by (auto split: prod.splits sum.splits)
      from write_text_Inr[OF w] False l Applied show ?thesis by auto
    qed
  next
    case SkippedAlreadyPresent
    with eq show ?thesis by simp
  next
    case SkippedNoMatch
    with eq show ?thesis by simp
  qed
qed

lemma sample_applied: "patch_factory ascii_only sample_text = Applied sample_patched"
  by (simp add: sample_text_def sample_patched_def patch_factory_def lit_def re_search_def
        factory_pattern_def lits_def chr_def is_space_def is_word_def rmatch.simps new_field_def
        slice_def ascii_only_def)

lemma sample_text_un: "universal_newlines sample_text = sample_text"
  by (rule un_id) (simp add: sample_text_def lit_def)

lemma sample_model_lookup:
  "lookup fs_sample (MODELS_DIR @ [''order_model.dart'']) = Some (File sample_text)"
  by (simp add: fs_sample_def lookup_def MODELS_DIR_def LIB_DIR_def)

lemma sample_model_write:
  "write_text Posix (MODELS_DIR @ [''order_model.dart'']) sample_patched fs_sample
     = (Inr (), AList.update (MODELS_DIR @ [''order_model.dart'']) (File sample_patched) fs_sample)"
  by (simp add: write_text_def store_def osnl_posix fs_sample_def lookup_def MODELS_DIR_def LIB_DIR_def)

lemma sample_model_run:
  "add_organization_id_to_model Posix ascii_only (MODELS_DIR @ [''order_model.dart'']) new_report False fs_sample
     = (Inr (True, add_model_update new_report ''order_model.dart'' ''Added organizationId field''),
        AList.update (MODELS_DIR @ [''order_model.dart'']) (File sample_patched) fs_sample)"
  by (simp add: add_model_file[OF sample_model_lookup] sample_text_un sample_applied sample_model_write)

lemma sample_settings_lookup:
  "lookup fs_sample (settings_dir @ [''business_rules_settings.dart'']) = Some (File sample_text)"
  by (simp add: fs_sample_def lookup_def settings_dir_def LIB_DIR_def)

lemma sample_settings_write:
  "write_text Posix (settings_dir @ [''business_rules_settings.dart'']) sample_patched fs_sample
     = (Inr (), AList.update (settings_dir @ [''business_rules_settings.dart'']) (File sample_patched) fs_sample)"
  by (simp add: write_text_def store_def osnl_posix fs_sample_def lookup_def settings_dir_def LIB_DIR_def)

lemma sample_settings_run:
  "update_settings_model Posix ascii_only False ''business_rules_settings.dart'' (0, []) fs_sample
     = (Inr (Suc 0, [lit ''  '' @ check_mark @ lit '' '' @ lit ''business_rules_settings.dart''
                      @ lit '': Added organizationId field'']),
        AList.update (settings_dir @ [''business_rules_settings.dart'']) (File sample_patched) fs_sample)"
  by (simp add: settings_file[OF sample_settings_lookup] sample_text_un sample_applied sample_settings_write)

lemma length_new_field: "0 < length new_field"
  by (simp add: new_field_def lit_def)

lemma splice_neq: "0 < length ins \<Longrightarrow> take k t @ ins @ drop k t \<noteq> t"
proof
  assume p: "0 < length ins" and e: "take k t @ ins @ drop k t = t"
  have "length (take k t @ ins @ drop k t) = length (take k t @ drop k t) + length ins" by simp
  also have "take k t @ drop k t = t" by simp
  finally have "length (take k t @ ins @ drop k t) = length t + length ins" .
  with e p show False by simp
qed

lemma patch_factory_changes: "patch_factory ua t = Applied new \<Longrightarrow> new \<noteq> t"
proof -
  assume "patch_factory ua t = Applied new"
  from patch_factory_Applied[OF this] obtain k where "new = take k t @ new_field @ drop k t" by blast
  with splice_neq[OF length_new_field] show ?thesis by simp
qed

lemma patch_factory_guard:
  "contains (lit ''organizationId'') t \<or> contains (lit ''organization_id'') t \<Longrightarrow>
   patch_factory ua t = SkippedAlreadyPresent"
  by (simp add: patch_factory_def)

lemma provider_file_missing:
  "lookup fs p = None \<Longrightarrow> update_provider_file os p d out fs = (Inl (missing_error fs p), fs)"
  by (simp add: update_provider_file_def io_bind_def read_text_def)

lemma provider_file_other:
  "lookup fs p = Some n \<Longrightarrow> (\<forall>t. n \<noteq> File t) \<Longrightarrow>
   update_provider_file os p d out fs
     = (Inl (if n = Dir then IsADirectoryError else UnicodeDecodeError), fs)"
  by (simp add: update_provider_file_def io_bind_def read_text_other)

lemma provider_import_Some:
  assumes "provider_import t = Some (content, changes)"
  shows "contains (lit ''Supabase.instance.client'') t
         \<and> \<not> contains (lit ''currentOrganizationProvider'') t
         \<and> ((changes = 0 \<and> content = t)
            \<or> (changes = 1 \<and> \<not> contains org_import t
                \<and> \<not> contains (lit ''organization_provider.dart'') t
                \<and> (\<exists>m. re_search import_pattern t = Some m
                       \<and> content = take (mstart m) t @ org_import @ lit ''\<newline>'' @ drop (mstart m) t)))"
  using assms by (auto simp: provider_import_def split: if_splits option.splits)

lemma provider_file_file:
  "lookup fs p = Some (File t) \<Longrightarrow>
   update_provider_file os p d out fs =
     (case provider_import (universal_newlines t) of
        None \<Rightarrow> (Inr ((False, 0), out), fs)
      | Some (content, changes) \<Rightarrow>
          if changes > 0 \<or> contains (lit ''Supabase.instance.client'') content
          then
            if d then (Inr ((True, 1), out @ [lit ''  '' @ check_mark @ lit '' ''
                            @ lit (last p) @ lit '': Would add org import'']), fs)
            else (case write_text os p content fs of
                    (Inl e, fs') \<Rightarrow> (Inl e, fs')
                  | (Inr u, fs') \<Rightarrow>
                      (Inr ((True, changes), out @ [lit ''  '' @ check_mark @ lit '' ''
                            @ lit (last p) @ lit '': Added org import'']), fs'))
          else (Inr ((False, 0), out), fs))"
  by (simp add: update_provider_file_def io_bind_def io_ret_def read_text_file
      split: option.splits prod.splits sum.splits)

lemma provider_file_True:
  assumes "update_provider_file os p d out fs = (Inr ((True, k), out'), fs')"
  shows "\<exists>t content changes. lookup fs p = Some (File t)
           \<and> provider_import (universal_newlines t) = Some (content, changes)
           \<and> (if d then fs' = fs
               else p \<noteq> [] \<and> fs' = AList.update p (File (os_newlines os content)) fs \<and> k = changes)"
proof (cases rule: node_cases[of fs p])
  case missing
  from assms show ?thesis unfolding provider_file_missing[OF missing] by simp
next
  case (other n)
  from assms show ?thesis unfolding provider_file_other[OF other] by simp
next
  case (regular t)
  note l = regular
  note eq = assms[unfolded provider_file_file[OF l]]
  show ?thesis
  proof (cases "provider_import (universal_newlines t)")
    case None
    with eq show ?thesis by simp
  next
    case (Some cc)
    obtain content changes where cc: "cc = (content, changes)" by (cases cc)
    show ?thesis
    proof (cases d)
      case True
      with eq Some cc l show ?thesis by (auto split: if_splits)
    next
      case False
      with eq Some cc obtain u where w: "write_text os p content fs = (Inr u, fs')" and k: "k = changes"
        by (auto split: if_splits prod.splits sum.splits)
      from write_text_Inr[OF w] False l Some cc k show ?thesis by auto
    qed
  qed
qed

lemma org_context_file:
  "lookup fs p = Some (File t) \<Longrightarrow>
   update_provider_org_context os p d out fs =
     (if \<not> contains (lit ''Supabase.instance.client'') (universal_newlines t)
      then (Inr (False, out), fs)
      else if contains (lit ''currentOrganizationProvider.future'') (universal_newlines t)
      then (Inr (False, out), fs)
      else if d then (Inr (True, out @ [lit ''  '' @ check_mark @ lit '' '' @ lit (last p)
                           @ lit '': Needs org context wiring'']), fs)
      else (case write_text os p (wire_content (universal_newlines t)) fs of
              (Inl e, fs') \<Rightarrow> (Inl e, fs')
            | (Inr u, fs') \<Rightarrow>
                (Inr (True, out @ [lit ''  '' @ check_mark @ lit '' '' @ lit (last p)
                           @ lit '': Added org context TODO'']), fs')))"
  by (simp add: update_provider_org_context_def io_bind_def io_ret_def read_text_file
      split: option.splits prod.splits sum.splits)

lemma org_context_missing:
  "lookup fs p = None \<Longrightarrow>
   update_provider_org_context os p d out fs = (Inl (missing_error fs p), fs)"
  by (simp add: update_provider_org_context_def io_bind_def read_text_def)

lemma org_context_other:
  "lookup fs p = Some n \<Longrightarrow> (\<forall>t. n \<noteq> File t) \<Longrightarrow>
   update_provider_org_context os p d out fs
     = (Inl (if n = Dir then IsADirectoryError else UnicodeDecodeError), fs)"
  by (simp add: update_provider_org_context_def io_bind_def read_text_other)

lemma org_context_True:
  assumes "update_provider_org_context os p d out fs = (Inr (True, out'), fs')"
  shows "\<exists>t. lookup fs p = Some (File t)
           \<and> contains (lit ''Supabase.instance.client'') (universal_newlines t)
           \<and> \<not> contains (lit ''currentOrganizationProvider.future'') (universal_newlines t)
           \<and> (if d then fs' = fs
               else p \<noteq> []
                  \<and> fs' = AList.update p (File (os_newlines os (wire_content (universal_newlines t)))) fs)"
proof (cases rule: node_cases[of fs p])
  case missing
  from assms show ?thesis unfolding org_context_missing[OF missing] by simp
next
  case (other n)
  from assms show ?thesis unfolding org_context_other[OF other] by simp
next
  case (regular t)
  note l = regular
  note eq = assms[unfolded org_context_file[OF l]]
  from eq have c: "contains (lit ''Supabase.instance.client'') (universal_newlines t)"
    "\<not> contains (lit ''currentOrganizationProvider.future'') (universal_newlines t)"
    by (auto split: if_splits)
  show ?thesis
  proof (cases d)
    case True
    with eq c l show ?thesis by (auto split: if_splits)
  next
    case False
    with eq c obtain u where
      w: "write_text os p (wire_content (universal_newlines t)) fs = (Inr u, fs')"
      by (auto split: if_splits prod.splits sum.splits)
    from write_text_Inr[OF w] False l c show ?thesis by auto
  qed
qed

lemma sample_marked_match:
  "re_search (factory_pattern ascii_only) sample_marked = Some \<lparr>mstart = 0, mend = 46, marks = [13, 36]\<rparr>"
  by (simp add: sample_marked_def lit_def re_search_def factory_pattern_def lits_def chr_def
        is_space_def is_word_def rmatch.simps ascii_only_def)

lemma sample_marked_guard: "contains (lit ''organizationId'') sample_marked"
  by (simp add: sample_marked_def lit_def)

lemma bare_lookup:
  "lookup fs_bare (PROVIDERS_DIR @ [''categories_provider.dart'']) = Some (File sample_bare_provider)"
  by (simp add: fs_bare_def lookup_def PROVIDERS_DIR_def LIB_DIR_def)

lemma bare_import: "provider_import sample_bare_provider = Some (sample_bare_provider, 0)"
  by (simp add: provider_import_def sample_bare_provider_def lit_def org_import_def re_search_def
        import_pattern_def lits_def chr_def rmatch.simps)

lemma bare_supabase: "contains (lit ''Supabase.instance.client'') sample_bare_provider"
  by (simp add: sample_bare_provider_def lit_def)

lemma bare_un: "universal_newlines sample_bare_provider = sample_bare_provider"
  by (rule un_id) (simp add: sample_bare_provider_def lit_def)

lemma bare_write:
  "write_text Posix (PROVIDERS_DIR @ [''categories_provider.dart'']) sample_bare_provider fs_bare = (Inr (), fs_bare)"
  by (rule write_text_same)
     (simp_all add: osnl_posix PROVIDERS_DIR_def LIB_DIR_def fs_bare_def lookup_def)

lemma sample_provider_lookup:
  "lookup fs_sample (PROVIDERS_DIR @ [''categories_provider.dart'']) = Some (File sample_provider)"
  by (simp add: fs_sample_def lookup_def PROVIDERS_DIR_def LIB_DIR_def)

lemma sample_provider_import: "provider_import sample_provider = Some (sample_provider_imported, 1)"
  by (simp add: provider_import_def sample_provider_def sample_provider_imported_def lit_def
        org_import_def re_search_def import_pattern_def lits_def chr_def rmatch.simps)

lemma sample_provider_un: "universal_newlines sample_provider = sample_provider"
  by (rule un_id) (simp add: sample_provider_def lit_def)

lemma sample_provider_write:
  "write_text Posix (PROVIDERS_DIR @ [''categories_provider.dart'']) t fs_sample
     = (Inr (), AList.update (PROVIDERS_DIR @ [''categories_provider.dart'']) (File t) fs_sample)"
  by (simp add: write_text_def store_def osnl_posix fs_sample_def lookup_def PROVIDERS_DIR_def LIB_DIR_def)

lemma sample_provider_run:
  "update_provider_file Posix (PROVIDERS_DIR @ [''categories_provider.dart'']) False [] fs_sample
     = (Inr ((True, 1), [lit ''  '' @ check_mark @ lit '' '' @ lit ''categories_provider.dart''
                          @ lit '': Added org import'']),
        AList.update (PROVIDERS_DIR @ [''categories_provider.dart'']) (File sample_provider_imported) fs_sample)"
  by (simp add: provider_file_file[OF sample_provider_lookup] sample_provider_un sample_provider_import
        sample_provider_write)

lemma sample_provider_supabase: "contains (lit ''Supabase.instance.client'') sample_provider"
  by (simp add: sample_provider_def lit_def)

lemma sample_provider_future: "\<not> contains (lit ''currentOrganizationProvider.future'') sample_provider"
  by (simp add: sample_provider_def lit_def)

lemma sample_context_run:
  "update_provider_org_context Posix (PROVIDERS_DIR @ [''categories_provider.dart'']) False [] fs_sample
     = (Inr (True, [lit ''  '' @ check_mark @ lit '' '' @ lit ''categories_provider.dart''
                          @ lit '': Added org context TODO'']),
        AList.update (PROVIDERS_DIR @ [''categories_provider.dart'']) (File (wire_content sample_provider)) fs_sample)"
  by (simp add: org_context_file[OF sample_provider_lookup] sample_provider_un sample_provider_supabase
        sample_provider_future sample_provider_write)

lemma marked_model_lookup:
  "lookup fs_marked (MODELS_DIR @ [''order_model.dart'']) = Some (File sample_marked)"
  by (simp add: fs_marked_def lookup_def MODELS_DIR_def LIB_DIR_def)

lemma marked_settings_lookup:
  "lookup fs_marked (settings_dir @ [''business_rules_settings.dart'']) = Some (File sample_marked)"
  by (simp add: fs_marked_def lookup_def settings_dir_def LIB_DIR_def)

lemma readonlyI: "(\<And>fs. snd (m fs) = fs) \<Longrightarrow> readonly m"
  by (simp add: readonly_def)

lemma readonlyD: "readonly m \<Longrightarrow> snd (m fs) = fs"
  by (simp add: readonly_def)

lemma readonly_ret: "readonly (io_ret v)"
  by (simp add: readonly_def io_ret_def)

lemma readonly_raise: "readonly (io_raise e)"
  by (simp add: readonly_def io_raise_def)


lemma readonly_read: "readonly (read_text p)"
  by (simp add: readonly_def read_text_def split: option.splits node.splits)

lemma readonly_bind:
  assumes "readonly m" and "\<And>v. readonly (f v)"
  shows "readonly (io_bind m f)"
proof (rule readonlyI)
  fix fs
  obtain r fs1 where m: "m fs = (r, fs1)" by (cases "m fs")
  from readonlyD[OF assms(1), of fs] m have fs1: "fs1 = fs" by simp
  show "snd (io_bind m f fs) = fs"
  proof (cases r)
    case (Inl e)
    with m fs1 show ?thesis by (simp add: io_bind_def)
  next
    case (Inr v)
    with m fs1 readonlyD[OF assms(2), of v fs] show ?thesis by (simp add: io_bind_def)
  qed
qed













lemma readonly_db3: "readonly (update_database_service3 d out)"
  unfolding update_database_service3_def Let_def
  by (intro readonly_bind readonly_read) (simp add: readonly_ret split: prod.splits)







lemma check_method_step:
  "\<exists>b l. b \<le> 1 \<and> length l = b \<and> (\<forall>c out. check_method t d m (c, out) = (c + b, out @ l))
         \<and> (\<forall>c out. fst (check_method t d' m (c, out)) = c + b)"
proof -
  obtain name table where m: "m = (name, table)" by (cases m)
  let ?needs = "name \<notin> set SKIP_METHODS \<and> contains (lit name) t
      \<and> (\<exists>mt. re_search (method_pattern name) t = Some mt
            \<and> \<not> contains (lit ''organizationId'') (slice (mstart mt) (mend mt) t))"
  show ?thesis
  proof (cases ?needs)
    case True
    then obtain mt where mt: "re_search (method_pattern name) t = Some mt"
      "\<not> contains (lit ''organizationId'') (slice (mstart mt) (mend mt) t)" by blast
    let ?l = "if d then [lit ''  [TODO] '' @ lit name @ lit ''() needs organizationId for '' @ lit table]
              else [lit ''  [MANUAL] '' @ lit name @ lit ''() - add organizationId for '' @ lit table]"
    from True mt have "\<forall>c out. check_method t d m (c, out) = (c + 1, out @ ?l)"
      by (simp add: check_method_def m Let_def)
    moreover from True mt have "\<forall>c out. fst (check_method t d' m (c, out)) = c + 1"
      by (simp add: check_method_def m Let_def)
    moreover have "length ?l = 1" by simp
    ultimately show ?thesis by (intro exI[of _ 1] exI[of _ ?l]) simp
  next
    case False
    then have "\<forall>c out. check_method t d m (c, out) = (c + 0, out @ [])"
      by (auto simp: check_method_def m Let_def split: option.splits)
    moreover from False have "\<forall>c out. fst (check_method t d' m (c, out)) = c + 0"
      by (auto simp: check_method_def m Let_def split: option.splits)
    ultimately show ?thesis by (intro exI[of _ 0] exI[of _ "[]"]) simp
  qed
qed

lemma check_methods_fold:
  "\<exists>k ls. k \<le> length ms \<and> length ls = k
      \<and> fold (check_method t d) ms (c, out) = (c + k, out @ ls)
      \<and> fst (fold (check_method t d') ms (c', out')) = c' + k"
proof (induction ms arbitrary: c out c' out')
  case Nil
  show ?case by simp
next
  case (Cons m ms)
  from check_method_step[of t d m d'] obtain b l where
    b: "b \<le> 1" "length l = b" and s: "check_method t d m (c, out) = (c + b, out @ l)"
    and s': "fst (check_method t d' m (c', out')) = c' + b" by blast
  obtain o2 where o2: "check_method t d' m (c', out') = (c' + b, o2)"
    using s' by (cases "check_method t d' m (c', out')") simp
  from Cons.IH[of "c + b" "out @ l" "c' + b" o2] obtain k ls where
    k: "k \<le> length ms" "length ls = k"
    and f: "fold (check_method t d) ms (c + b, out @ l) = (c + b + k, (out @ l) @ ls)"
    and f': "fst (fold (check_method t d') ms (c' + b, o2)) = c' + b + k" by blast
  have "b + k \<le> length (m # ms)" using b k by simp
  moreover have "length (l @ ls) = b + k" using b k by simp
  moreover have "fold (check_method t d) (m # ms) (c, out) = (c + (b + k), out @ (l @ ls))"
    using s f by simp
  moreover have "fst (fold (check_method t d') (m # ms) (c', out')) = c' + (b + k)"
    using o2 f' by simp
  ultimately show ?case by blast
qed

lemma db3_file:
  "lookup fs (LIB_DIR @ [''core'', ''services'', ''database_service.dart'']) = Some (File t) \<Longrightarrow>
   update_database_service3 d out fs =
     (case fold (check_method (universal_newlines t) d) methods_to_update (0, out) of
        (changes, out) \<Rightarrow>
          (Inr (changes, out @ [lit ''\<newline>  Total methods needing update: '' @ lit (digits changes)]), fs))"
  by (simp add: update_database_service3_def Let_def io_bind_def io_ret_def read_text_file
      split: prod.splits)

lemma db3_missing:
  "lookup fs (LIB_DIR @ [''core'', ''services'', ''database_service.dart'']) = None \<Longrightarrow>
   update_database_service3 d out fs
     = (Inl (missing_error fs (LIB_DIR @ [''core'', ''services'', ''database_service.dart''])), fs)"
  by (simp add: update_database_service3_def Let_def io_bind_def read_text_def)

lemma sample_service_un: "universal_newlines sample_service = sample_service"
  by (rule un_id) (simp add: sample_service_def lit_def)

lemma sample_service_lookup:
  "lookup fs_sample (LIB_DIR @ [''core'', ''services'', ''database_service.dart'']) = Some (File sample_service)"
  by (simp add: fs_sample_def lookup_def LIB_DIR_def)

lemma sample_service_count:
  "fold (check_method sample_service False) methods_to_update (0, [])
     = (1, [lit ''  [MANUAL] countOrdersInSlot() - add organizationId for ordini''])"
  by (simp add: methods_to_update_def check_method_def SKIP_METHODS_def sample_service_def lit_def
        re_search_def method_pattern_def lits_def chr_def is_space_def rmatch.simps slice_def Let_def)

section \<open>Frame properties\<close>

lemma changes_onlyI:
  "(\<And>fs q. \<not> P q \<Longrightarrow> lookup (snd (m fs)) q = lookup fs q) \<Longrightarrow> changes_only P m"
  by (simp add: changes_only_def)


lemma readonly_changes_only: "readonly m \<Longrightarrow> changes_only P m"
  by (simp add: changes_only_def readonly_def)




lemma changes_only_store: "P p \<Longrightarrow> changes_only P (store p n)"
proof (rule changes_onlyI)
  fix fs q
  assume p: "P p" and q: "\<not> P q"
  then have ne: "q \<noteq> p" by auto
  obtain r fs' where s: "store p n fs = (r, fs')" by (cases "store p n fs")
  show "lookup (snd (store p n fs)) q = lookup fs q"
  proof (cases r)
    case (Inl e)
    with s store_Inl[of p n fs e fs'] show ?thesis by simp
  next
    case (Inr u)
    with s store_Inr[of p n fs u fs'] ne show ?thesis by (simp add: lookup_update)
  qed
qed

lemma changes_only_write: "P p \<Longrightarrow> changes_only P (write_text os p t)"
  unfolding write_text_def by (rule changes_only_store)



lemma prefixes_hd: "q \<in> set (tl (prefixes (x # r))) \<Longrightarrow> prefix [x] q"
  by (auto simp: prefix_def)







section \<open>Whole runs with a dry-run flag\<close>










section \<open>The claims\<close>

text \<open>
  C3 (corrected). The claim: on \<^verbatim>\<open>factory Foo({Map x = const {},}) = _Foo;\<close> the
  matcher captures the whole balanced body of the constructor and the insertion
  lands inside the parameter list. The body class of the pattern is \<^verbatim>\<open>[^}]\<close>,
  and after the first closing brace the pattern wants \<^verbatim>\<open>\s*\)\<close>: on this input
  the first closing brace is followed by a comma, so there is no match at all
  and nothing is inserted. First the input of the claim with the ASCII table,
  then the same for every table \<open>ua\<close>.
\<close>

theorem nested_braces_counterexample:
  "patch_factory ascii_only (lit ''factory Foo({Map x = const {},}) = _Foo;'') = SkippedNoMatch"
  by (simp add: patch_factory_def lit_def re_search_def factory_pattern_def lits_def chr_def
        is_space_def is_word_def rmatch.simps)

theorem nested_braces_no_match:
  "patch_factory ua (lit ''factory Foo({Map x = const {},}) = _Foo;'') = SkippedNoMatch"
  by (simp add: patch_factory_def lit_def re_search_def factory_pattern_def lits_def chr_def
        is_space_def is_word_def rmatch.simps)




text \<open>
  C6 (confirmed). A text that contains \<open>organizationId\<close> or \<open>organization_id\<close>
  anywhere is skipped as already present, whatever the matcher would find in
  it: the guard is the first test of the rule and its result does not depend on
  the search. Through the two functions: the file is skipped, with the warning
  in phase 1 and silently in phase 2, and the file system stays as it is. The
  witness is a text in which the pattern does match.
\<close>

theorem factory_guard_first:
  "((contains (lit ''organizationId'') t \<or> contains (lit ''organization_id'') t) \<longrightarrow>
      patch_factory ua t = SkippedAlreadyPresent)
   \<and> (lookup fs p = Some (File t)
       \<and> (contains (lit ''organizationId'') t \<or> contains (lit ''organization_id'') t) \<longrightarrow>
      add_organization_id_to_model os ua p r d fs
        = (Inr (False, add_warning r (last p @ '': Already has organizationId, skipping'')), fs))
   \<and> (lookup fs (settings_dir @ [f]) = Some (File t)
       \<and> (contains (lit ''organizationId'') t \<or> contains (lit ''organization_id'') t) \<longrightarrow>
      update_settings_model os ua d f (n, out) fs = (Inr (n, out), fs))"
proof (intro conjI impI)
  assume "contains (lit ''organizationId'') t \<or> contains (lit ''organization_id'') t"
  then show "patch_factory ua t = SkippedAlreadyPresent" by (rule patch_factory_guard)
next
  assume a: "lookup fs p = Some (File t)
       \<and> (contains (lit ''organizationId'') t \<or> contains (lit ''organization_id'') t)"
  then have "contains (lit ''organizationId'') (universal_newlines t)
       \<or> contains (lit ''organization_id'') (universal_newlines t)"
    by (auto intro!: contains_un simp: lit_def)
  then have "patch_factory ua (universal_newlines t) = SkippedAlreadyPresent"
    by (rule patch_factory_guard)
  with a show "add_organization_id_to_model os ua p r d fs
        = (Inr (False, add_warning r (last p @ '': Already has organizationId, skipping'')), fs)"
    by (simp add: add_model_file)
next
  assume a: "lookup fs (settings_dir @ [f]) = Some (File t)
       \<and> (contains (lit ''organizationId'') t \<or> contains (lit ''organization_id'') t)"
  then have "contains (lit ''organizationId'') (universal_newlines t)
       \<or> contains (lit ''organization_id'') (universal_newlines t)"
    by (auto intro!: contains_un simp: lit_def)
  then have "patch_factory ua (universal_newlines t) = SkippedAlreadyPresent"
    by (rule patch_factory_guard)
  with a show "update_settings_model os ua d f (n, out) fs = (Inr (n, out), fs)"
    by (simp add: settings_file)
qed

theorem factory_guard_first_witness:
  "contains (lit ''organizationId'') sample_marked
   \<and> re_search (factory_pattern ascii_only) sample_marked
       = Some \<lparr>mstart = 0, mend = 46, marks = [13, 36]\<rparr>
   \<and> patch_factory ascii_only sample_marked = SkippedAlreadyPresent
   \<and> add_organization_id_to_model Posix ascii_only (MODELS_DIR @ [''order_model.dart'']) new_report False fs_marked
       = (Inr (False, add_warning new_report
                 (last (MODELS_DIR @ [''order_model.dart'']) @ '': Already has organizationId, skipping'')),
          fs_marked)
   \<and> update_settings_model Posix ascii_only False ''business_rules_settings.dart'' (0, []) fs_marked
       = (Inr (0, []), fs_marked)"
proof -
  have g: "contains (lit ''organizationId'') sample_marked \<or> contains (lit ''organization_id'') sample_marked"
    using sample_marked_guard by simp
  from factory_guard_first[THEN conjunct1, rule_format, OF g]
  have 1: "patch_factory ascii_only sample_marked = SkippedAlreadyPresent" .
  from factory_guard_first[THEN conjunct2, THEN conjunct1, rule_format, OF conjI[OF marked_model_lookup g]]
  have 2: "add_organization_id_to_model Posix ascii_only (MODELS_DIR @ [''order_model.dart'']) new_report False fs_marked
       = (Inr (False, add_warning new_report
                 (last (MODELS_DIR @ [''order_model.dart'']) @ '': Already has organizationId, skipping'')),
          fs_marked)" .
  from factory_guard_first[THEN conjunct2, THEN conjunct2, rule_format, OF conjI[OF marked_settings_lookup g]]
  have 3: "update_settings_model Posix ascii_only False ''business_rules_settings.dart'' (0, []) fs_marked
       = (Inr (0, []), fs_marked)" .
  from sample_marked_guard sample_marked_match 1 2 3 show ?thesis by blast
qed

text \<open>
  C10 (confirmed). \<open>update_database_service\<close> of phase 3 never changes the file
  system, in either mode and whether it returns or raises. When
  \<open>database_service.dart\<close> is a file it returns: the count \<open>n\<close> of the methods
  that need the parameter is at most the number of listed methods and is the
  same in both modes, and it prints one line for each counted method and then
  the total.
\<close>

theorem phase3_analysis_readonly:
  "snd (update_database_service3 d out fs) = fs
   \<and> (lookup fs (LIB_DIR @ [''core'', ''services'', ''database_service.dart'']) = Some (File t) \<longrightarrow>
        (\<exists>n ls. n \<le> length methods_to_update \<and> length ls = n
           \<and> update_database_service3 d out fs
               = (Inr (n, out @ ls @ [lit ''\<newline>  Total methods needing update: '' @ lit (digits n)]), fs)
           \<and> fst (fold (check_method (universal_newlines t) True) methods_to_update (0, out)) = n
           \<and> fst (fold (check_method (universal_newlines t) False) methods_to_update (0, out)) = n))"
proof (intro conjI impI)
  show "snd (update_database_service3 d out fs) = fs" by (rule readonlyD[OF readonly_db3])
next
  assume l: "lookup fs (LIB_DIR @ [''core'', ''services'', ''database_service.dart'']) = Some (File t)"
  from check_methods_fold[of methods_to_update "universal_newlines t" d 0 out True 0 out] obtain k ls where
    k: "k \<le> length methods_to_update" "length ls = k"
    and f: "fold (check_method (universal_newlines t) d) methods_to_update (0, out) = (0 + k, out @ ls)"
    and t1: "fst (fold (check_method (universal_newlines t) True) methods_to_update (0, out)) = 0 + k" by blast
  from check_methods_fold[of methods_to_update "universal_newlines t" d 0 out False 0 out] f
  have t2: "fst (fold (check_method (universal_newlines t) False) methods_to_update (0, out)) = 0 + k" by auto
  from f have "update_database_service3 d out fs
      = (Inr (k, out @ ls @ [lit ''\<newline>  Total methods needing update: '' @ lit (digits k)]), fs)"
    by (simp add: db3_file[OF l])
  with k t1 t2 show "\<exists>n ls. n \<le> length methods_to_update \<and> length ls = n
           \<and> update_database_service3 d out fs
               = (Inr (n, out @ ls @ [lit ''\<newline>  Total methods needing update: '' @ lit (digits n)]), fs)
           \<and> fst (fold (check_method (universal_newlines t) True) methods_to_update (0, out)) = n
           \<and> fst (fold (check_method (universal_newlines t) False) methods_to_update (0, out)) = n"
    by auto
qed

theorem phase3_analysis_readonly_witness:
  "lookup fs_sample (LIB_DIR @ [''core'', ''services'', ''database_service.dart''])
     = Some (File sample_service)
   \<and> snd (update_database_service3 False [] fs_sample) = fs_sample
   \<and> fst (fold (check_method sample_service False) methods_to_update (0, [])) = 1
   \<and> fst (fold (check_method sample_service True) methods_to_update (0, [])) = 1
   \<and> (\<exists>ls. length ls = 1
         \<and> update_database_service3 False [] fs_sample
             = (Inr (1, [] @ ls @ [lit ''\<newline>  Total methods needing update: '' @ lit (digits 1)]),
                fs_sample))"
proof -
  from phase3_analysis_readonly[THEN conjunct2, rule_format, OF sample_service_lookup, of False "[]"]
  obtain n ls where n: "length ls = n"
    "update_database_service3 False [] fs_sample
       = (Inr (n, [] @ ls @ [lit ''\<newline>  Total methods needing update: '' @ lit (digits n)]), fs_sample)"
    "fst (fold (check_method sample_service True) methods_to_update (0, [])) = n"
    "fst (fold (check_method sample_service False) methods_to_update (0, [])) = n"
    unfolding sample_service_un by blast
  from sample_service_count have c: "fst (fold (check_method sample_service False) methods_to_update (0, [])) = 1"
    by simp
  with n(4) have n1: "n = 1" by simp
  from phase3_analysis_readonly[THEN conjunct1, of False "[]" fs_sample]
  have "snd (update_database_service3 False [] fs_sample) = fs_sample" .
  then have ro: "snd (update_database_service3 False [] fs_sample) = fs_sample" .
  from n(1,2) have e: "\<exists>ls. length ls = 1
         \<and> update_database_service3 False [] fs_sample
             = (Inr (1, [] @ ls @ [lit ''\<newline>  Total methods needing update: '' @ lit (digits 1)]),
                fs_sample)"
    unfolding n1 by blast
  from n(3) have t: "fst (fold (check_method sample_service True) methods_to_update (0, [])) = 1"
    unfolding n1 .
  from sample_service_lookup ro c t e show ?thesis by (intro conjI)
qed

end
